theory Spec2Isabelle
  imports Complex_Main "HOL-Library.Word" "HOL-Library.Char_ord" "HOL-Library.List_Lexorder"
    "HOL-Library.Multiset" "HOL-Library.Sublist"
begin

unbundle bit_operations_syntax

section \<open>Trip records and the aggregation cache (script.js, buildCaches)\<close>

text \<open>
  A cleaned trip is \<open>{start_station_name, end_station_name, member_type}\<close>; loadAllCSVs
  collapses the member type to Annual, Casual or Other. Each entry of \<open>state.allData\<close> is
  \<open>{month, mm, trips}\<close>; \<open>mm\<close> is the two-digit month cut out of one of the twelve fixed
  file names, so it is one of '01' .. '12'.
\<close>

datatype member_type = Annual | Casual | Other

datatype member_key = MemAll | MemAnnual | MemCasual

datatype month = M01 | M02 | M03 | M04 | M05 | M06 | M07 | M08 | M09 | M10 | M11 | M12

datatype month_key = MonthAll | MonthOf month

record trip =
  start_station_name :: string
  end_station_name :: string
  member_type :: member_type

record month_obj =
  mm :: month
  trips :: "trip list"

text \<open>
  A JavaScript \<open>Map\<close> iterates in insertion order and \<open>set\<close> on an existing key keeps the
  key's position: an association list, updated in place or extended at the end.
\<close>

type_synonym ('k, 'v) js_map = "('k \<times> 'v) list"

fun map_get :: "('k, 'v) js_map \<Rightarrow> 'k \<Rightarrow> 'v option" where
  "map_get [] k = None"
| "map_get ((k', v') # m) k = (if k' = k then Some v' else map_get m k)"

fun map_set :: "('k, 'v) js_map \<Rightarrow> 'k \<Rightarrow> 'v \<Rightarrow> ('k, 'v) js_map" where
  "map_set [] k v = [(k, v)]"
| "map_set ((k', v') # m) k v = (if k' = k then (k, v) # m else (k', v') # map_set m k v)"

text \<open>The per-station record \<open>{ name, start, end }\<close>.\<close>

record station_rec =
  rec_name :: string
  rec_start :: nat
  rec_end :: nat

type_synonym station_map = "(string, station_rec) js_map"

type_synonym route_map = "(string, nat) js_map"

type_synonym routes_obj = "(string, route_map) js_map"

record cache =
  stationAgg :: "member_key \<Rightarrow> month_key \<Rightarrow> station_map"
  endRoutes :: "member_key \<Rightarrow> month_key \<Rightarrow> routes_obj"

datatype count_type = CountStart | CountEnd

text \<open>
  \<open>updateStation(map, name, type)\<close>: nothing for an empty name; otherwise the record is
  created with zero counts when missing and the chosen count is incremented.
\<close>

definition updateStation :: "station_map \<Rightarrow> string \<Rightarrow> count_type \<Rightarrow> station_map" where
  "updateStation m n ty =
     (if n = [] then m
      else
        let r = (case map_get m n of
                   None \<Rightarrow> \<lparr>rec_name = n, rec_start = 0, rec_end = 0\<rparr>
                 | Some r0 \<Rightarrow> r0)
        in map_set m n (case ty of
                          CountStart \<Rightarrow> r\<lparr>rec_start := rec_start r + 1\<rparr>
                        | CountEnd \<Rightarrow> r\<lparr>rec_end := rec_end r + 1\<rparr>))"

text \<open>
  The route update: \<open>endRoutes[mem][mk][start]\<close> is created as an empty Map when missing,
  then \<open>m.set(end, (m.get(end) || 0) + 1)\<close>.
\<close>

definition addRoute :: "routes_obj \<Rightarrow> string \<Rightarrow> string \<Rightarrow> routes_obj" where
  "addRoute r s e =
     (let m = (case map_get r s of None \<Rightarrow> [] | Some m0 \<Rightarrow> m0)
      in map_set r s (map_set m e ((case map_get m e of None \<Rightarrow> 0 | Some c \<Rightarrow> c) + 1)))"

definition upd_cell :: "('a \<Rightarrow> 'b \<Rightarrow> 'c) \<Rightarrow> 'a \<Rightarrow> 'b \<Rightarrow> ('c \<Rightarrow> 'c) \<Rightarrow> ('a \<Rightarrow> 'b \<Rightarrow> 'c)" where
  "upd_cell f a b g = f(a := (f a)(b := g (f a b)))"

definition applyMembers :: "member_type \<Rightarrow> member_key list" where
  "applyMembers mt =
     (case mt of
        Annual \<Rightarrow> [MemAll, MemAnnual]
      | Casual \<Rightarrow> [MemAll, MemCasual]
      | Other \<Rightarrow> [MemAll])"

text \<open>The body of \<open>for (const mem of applyMembers)\<close>, statement by statement.\<close>

definition applyMember :: "month \<Rightarrow> trip \<Rightarrow> cache \<Rightarrow> member_key \<Rightarrow> cache" where
  "applyMember m t c mem =
     (let s = start_station_name t;
          e = end_station_name t;
          sa1 = upd_cell (stationAgg c) mem MonthAll (\<lambda>mp. updateStation mp s CountStart);
          sa2 = upd_cell sa1 mem MonthAll (\<lambda>mp. updateStation mp e CountEnd);
          sa3 = upd_cell sa2 mem (MonthOf m) (\<lambda>mp. updateStation mp s CountStart);
          sa4 = upd_cell sa3 mem (MonthOf m) (\<lambda>mp. updateStation mp e CountEnd);
          er1 = upd_cell (endRoutes c) mem MonthAll (\<lambda>r. addRoute r s e);
          er2 = upd_cell er1 mem (MonthOf m) (\<lambda>r. addRoute r s e)
      in \<lparr>stationAgg = sa4, endRoutes = er2\<rparr>)"

definition applyTrip :: "month \<Rightarrow> cache \<Rightarrow> trip \<Rightarrow> cache" where
  "applyTrip m c t = foldl (applyMember m t) c (applyMembers (member_type t))"

definition applyMonth :: "cache \<Rightarrow> month_obj \<Rightarrow> cache" where
  "applyMonth c mo = foldl (applyTrip (mm mo)) c (trips mo)"

definition emptyCache :: cache where
  "emptyCache = \<lparr>stationAgg = (\<lambda>_ _. []), endRoutes = (\<lambda>_ _. [])\<rparr>"

definition buildCaches :: "month_obj list \<Rightarrow> cache" where
  "buildCaches allData = foldl applyMonth emptyCache allData"

text \<open>Reading a cell: the counts of a station and of a route, 0 when absent.\<close>

definition start_count :: "cache \<Rightarrow> member_key \<Rightarrow> month_key \<Rightarrow> string \<Rightarrow> nat" where
  "start_count c mem mk n =
     (case map_get (stationAgg c mem mk) n of None \<Rightarrow> 0 | Some r \<Rightarrow> rec_start r)"

definition end_count :: "cache \<Rightarrow> member_key \<Rightarrow> month_key \<Rightarrow> string \<Rightarrow> nat" where
  "end_count c mem mk n =
     (case map_get (stationAgg c mem mk) n of None \<Rightarrow> 0 | Some r \<Rightarrow> rec_end r)"

definition route_count :: "cache \<Rightarrow> member_key \<Rightarrow> month_key \<Rightarrow> string \<Rightarrow> string \<Rightarrow> nat" where
  "route_count c mem mk s e =
     (case map_get (endRoutes c mem mk) s of
        None \<Rightarrow> 0
      | Some m \<Rightarrow> (case map_get m e of None \<Rightarrow> 0 | Some k \<Rightarrow> k))"

text \<open>Totals of a cell, over all stations and over all routes.\<close>

definition total_start :: "cache \<Rightarrow> member_key \<Rightarrow> month_key \<Rightarrow> nat" where
  "total_start c mem mk = sum_list (map (\<lambda>kv. rec_start (snd kv)) (stationAgg c mem mk))"

definition total_end :: "cache \<Rightarrow> member_key \<Rightarrow> month_key \<Rightarrow> nat" where
  "total_end c mem mk = sum_list (map (\<lambda>kv. rec_end (snd kv)) (stationAgg c mem mk))"

definition total_routes :: "cache \<Rightarrow> member_key \<Rightarrow> month_key \<Rightarrow> nat" where
  "total_routes c mem mk =
     sum_list (map (\<lambda>kv. sum_list (map snd (snd kv))) (endRoutes c mem mk))"

text \<open>
  The fan-out rule: which cells a trip of month \<open>m\<close> and member type \<open>mt\<close> is added to,
  and how many trips of the data set are added to a cell.
\<close>

definition fans_into :: "member_key \<Rightarrow> month_key \<Rightarrow> month \<Rightarrow> trip \<Rightarrow> bool" where
  "fans_into mem mk m t =
     (mem \<in> set (applyMembers (member_type t)) \<and> (mk = MonthAll \<or> mk = MonthOf m))"

definition contributions :: "member_key \<Rightarrow> month_key \<Rightarrow> month_obj list \<Rightarrow> nat" where
  "contributions mem mk allData =
     sum_list (map (\<lambda>mo. length (filter (fans_into mem mk (mm mo)) (trips mo))) allData)"

definition cleaned :: "trip \<Rightarrow> bool" where
  "cleaned t = (start_station_name t \<noteq> [] \<and> end_station_name t \<noteq> [])"

definition incremented :: "cache \<Rightarrow> cache \<Rightarrow> trip \<Rightarrow> member_key \<Rightarrow> month_key \<Rightarrow> bool" where
  "incremented c c' t mem mk =
     (start_count c' mem mk (start_station_name t) = start_count c mem mk (start_station_name t) + 1
    \<and> end_count c' mem mk (end_station_name t) = end_count c mem mk (end_station_name t) + 1
    \<and> route_count c' mem mk (start_station_name t) (end_station_name t)
        = route_count c mem mk (start_station_name t) (end_station_name t) + 1)"

definition untouched :: "cache \<Rightarrow> cache \<Rightarrow> member_key \<Rightarrow> month_key \<Rightarrow> bool" where
  "untouched c c' mem mk =
     (stationAgg c' mem mk = stationAgg c mem mk \<and> endRoutes c' mem mk = endRoutes c mem mk)"

definition start_of :: "station_map \<Rightarrow> string \<Rightarrow> nat" where
  "start_of m n = (case map_get m n of None \<Rightarrow> 0 | Some r \<Rightarrow> rec_start r)"

definition end_of :: "station_map \<Rightarrow> string \<Rightarrow> nat" where
  "end_of m n = (case map_get m n of None \<Rightarrow> 0 | Some r \<Rightarrow> rec_end r)"

definition balanced_by :: "cache \<Rightarrow> member_key \<Rightarrow> month_key \<Rightarrow> nat \<Rightarrow> bool" where
  "balanced_by c mem mk k =
     (total_start c mem mk = k \<and> total_end c mem mk = k \<and> total_routes c mem mk = k)"

section \<open>The application state\<close>

text \<open>
  JavaScript numbers that \<open>isFinite\<close> tells apart: a finite double, read as a real, or one
  of NaN, Infinity, -Infinity.
\<close>

datatype jsnum = Finite real | NonFinite

fun isFinite :: "jsnum \<Rightarrow> bool" where
  "isFinite (Finite _) = True"
| "isFinite NonFinite = False"

record latlng =
  lat :: jsnum
  lng :: jsnum

text \<open>
  The \<open>state\<close> object of the second script. \<open>caches\<close> stands for the two fields
  \<open>state.stationAgg\<close> and \<open>state.endRoutes\<close>, which buildCaches sets together and which are
  null before. \<open>geojson\<close> is the closure variable of that name, a polygon read only through
  \<open>d3.geoContains(geojson, [lng, lat])\<close>; \<open>torontoCentroid\<close> is its \<open>d3.geoCentroid\<close>, as
  \<open>[lng, lat]\<close>.
\<close>

record state =
  allData :: "month_obj list"
  caches :: "cache option"
  isDetail :: bool
  selectedStation :: "string option"
  selectedMember :: member_key
  selectedMonthKey :: month_key
  mode3d :: bool
  yaw :: real
  pitch :: real
  width :: real
  height :: real
  minRouteCount :: int
  minRoutePercent :: real
  hideLowNodes :: bool
  colorBlind :: bool
  stationPos :: "string \<rightharpoonup> latlng"
  stationPosNorm :: "string \<rightharpoonup> latlng"
  geojson :: "(real \<times> real \<Rightarrow> bool) option"
  torontoCentroid :: "(real \<times> real) option"

definition initState :: state where
  "initState =
     \<lparr>allData = [], caches = None, isDetail = False, selectedStation = None,
      selectedMember = MemAll, selectedMonthKey = MonthAll, mode3d = False,
      yaw = 0, pitch = 0, width = 0, height = 0, minRouteCount = 0, minRoutePercent = 0,
      hideLowNodes = False, colorBlind = False, stationPos = Map.empty,
      stationPosNorm = Map.empty, geojson = None, torontoCentroid = None\<rparr>"

section \<open>Route ranking and filtering (script.js, updateVis)\<close>

record node =
  node_name :: string
  node_start :: nat
  node_end :: nat
  node_total :: nat

record link =
  link_source :: string
  link_target :: string
  link_value :: nat

text \<open>
  \<open>Array.prototype.sort\<close> is stable; with the comparator \<open>(a, b) => key(b) - key(a)\<close> it
  sorts by descending key and leaves elements of equal key in their order. \<open>sort_key\<close> is
  the stable insertion sort of the library, here on the negated key.
\<close>

definition sort_desc :: "('a \<Rightarrow> nat) \<Rightarrow> 'a list \<Rightarrow> 'a list" where
  "sort_desc key xs = sort_key (\<lambda>x. - int (key x)) xs"

definition MAX_NODES :: nat where
  "MAX_NODES = 60"

definition TOP_LINKS_PER_SOURCE :: nat where
  "TOP_LINKS_PER_SOURCE = 5"

definition aggMap :: "cache \<Rightarrow> state \<Rightarrow> station_map" where
  "aggMap c st = stationAgg c (selectedMember st) (selectedMonthKey st)"

definition allNodes :: "cache \<Rightarrow> state \<Rightarrow> node list" where
  "allNodes c st =
     map (\<lambda>kv. \<lparr>node_name = rec_name (snd kv), node_start = rec_start (snd kv),
                node_end = rec_end (snd kv),
                node_total = rec_start (snd kv) + rec_end (snd kv)\<rparr>) (aggMap c st)"

definition nodes :: "cache \<Rightarrow> state \<Rightarrow> node list" where
  "nodes c st = take MAX_NODES (sort_desc node_total (allNodes c st))"

definition included :: "cache \<Rightarrow> state \<Rightarrow> string \<Rightarrow> bool" where
  "included c st t = (t \<in> set (map node_name (nodes c st)))"

definition routes :: "cache \<Rightarrow> state \<Rightarrow> routes_obj" where
  "routes c st = endRoutes c (selectedMember st) (selectedMonthKey st)"

text \<open>The links of one source node: the body of \<open>for (const src of nodes)\<close>.\<close>

definition sourceLinks :: "cache \<Rightarrow> state \<Rightarrow> string \<Rightarrow> link list" where
  "sourceLinks c st src =
     (case map_get (routes c st) src of
        None \<Rightarrow> []
      | Some m \<Rightarrow>
          let arr = sort_desc snd m;
              arr' = (if \<not> (isDetail st \<and> selectedStation st = Some src)
                      then take TOP_LINKS_PER_SOURCE arr else arr)
          in map (\<lambda>tc. \<lparr>link_source = src, link_target = fst tc, link_value = snd tc\<rparr>)
               (filter (\<lambda>tc. included c st (fst tc)) arr'))"

definition linksRaw :: "cache \<Rightarrow> state \<Rightarrow> link list" where
  "linksRaw c st = concat (map (\<lambda>n. sourceLinks c st (node_name n)) (nodes c st))"

text \<open>
  \<open>d3.quantileSorted(values, p)\<close> of the d3-array library, which is not part of the
  repository: undefined on an empty array, the first value for \<open>p <= 0\<close> or fewer than two
  values, the last for \<open>p >= 1\<close>, and otherwise, with \<open>i = (n - 1) * p\<close> and
  \<open>i0 = floor(i)\<close>, the value \<open>values[i0] + (values[i0 + 1] - values[i0]) * (i - i0)\<close>.
  Numbers are read as reals.
\<close>

definition quantileSorted :: "real list \<Rightarrow> real \<Rightarrow> real option" where
  "quantileSorted vs p =
     (let n = length vs in
      if n = 0 then None
      else if p \<le> 0 \<or> n < 2 then Some (vs ! 0)
      else if p \<ge> 1 then Some (vs ! (n - 1))
      else
        let i = (real n - 1) * p;
            i0 = nat \<lfloor>i\<rfloor>;
            value0 = vs ! i0;
            value1 = vs ! (i0 + 1)
        in Some (value0 + (value1 - value0) * (i - real i0)))"

definition values_sorted :: "cache \<Rightarrow> state \<Rightarrow> nat list" where
  "values_sorted c st = sort (map link_value (linksRaw c st))"

text \<open>\<open>d3.quantileSorted(values, p) || 0\<close>.\<close>

definition quantile_or_zero :: "real list \<Rightarrow> real \<Rightarrow> real" where
  "quantile_or_zero vs p = (case quantileSorted vs p of None \<Rightarrow> 0 | Some q \<Rightarrow> q)"

definition thresholdCount :: "cache \<Rightarrow> state \<Rightarrow> int" where
  "thresholdCount c st =
     (let vs = values_sorted c st in
      if vs = [] then 0
      else
        let p = minRoutePercent st / 100
        in \<lfloor>quantile_or_zero (map real vs) p\<rfloor>)"

text \<open>\<open>state.isDetail && state.selectedStation\<close>: the selected station when it is truthy.\<close>

definition detailSelected :: "state \<Rightarrow> string option" where
  "detailSelected st =
     (if isDetail st
      then (case selectedStation st of
              None \<Rightarrow> None
            | Some s \<Rightarrow> if s = [] then None else Some s)
      else None)"

definition links :: "cache \<Rightarrow> state \<Rightarrow> link list" where
  "links c st =
     (case detailSelected st of
        Some s \<Rightarrow> filter (\<lambda>l. link_source l = s) (linksRaw c st)
      | None \<Rightarrow> filter (\<lambda>l. int (link_value l) \<ge> thresholdCount c st) (linksRaw c st))"

definition keepNames :: "link list \<Rightarrow> string list" where
  "keepNames ls =
     concat (map (\<lambda>l. (if link_source l \<noteq> [] then [link_source l] else [])
                      @ (if link_target l \<noteq> [] then [link_target l] else [])) ls)"

definition nodesVis :: "cache \<Rightarrow> state \<Rightarrow> node list" where
  "nodesVis c st =
     (if \<not> isDetail st \<and> hideLowNodes st
      then filter (\<lambda>n. node_name n \<in> set (keepNames (links c st))) (nodes c st)
      else nodes c st)"

definition linksView :: "cache \<Rightarrow> state \<Rightarrow> link list" where
  "linksView c st =
     (if \<not> isDetail st \<and> hideLowNodes st
      then filter (\<lambda>l. link_source l \<in> set (map node_name (nodesVis c st))
                      \<and> link_target l \<in> set (map node_name (nodesVis c st))) (links c st)
      else links c st)"



text \<open>
  What updateVis leaves in the state: nothing before the caches exist, the mapped
  threshold count afterwards. Its drawing is read off the functions above.
\<close>

definition updateVis :: "state \<Rightarrow> state" where
  "updateVis st =
     (case caches st of
        None \<Rightarrow> st
      | Some c \<Rightarrow> st\<lparr>minRouteCount := thresholdCount c st\<rparr>)"

section \<open>The view state machine (script.js, event handlers)\<close>

definition exitDetailView :: "state \<Rightarrow> state" where
  "exitDetailView st = updateVis (st\<lparr>isDetail := False, selectedStation := None\<rparr>)"

definition goToDetail :: "string \<Rightarrow> state \<Rightarrow> state" where
  "goToDetail stationName st = updateVis (st\<lparr>isDetail := True, selectedStation := Some stationName\<rparr>)"

text \<open>
  The user events with a handler that writes the state. The month slider holds 1..12,
  which updateMonthFromSlider pads to the month key; the radio event carries the value
  of the checked radio, if one is checked.
\<close>

datatype event =
    ByMonthChange bool month
  | MonthSliderInput month
  | MemberRadioChange "member_key option"
  | BackButtonClick
  | StationClick string
  | MinRouteSliderInput real
  | HideLowNodesChange bool
  | ColorBlindChange bool
  | Mode3dChange bool

definition exitIfDetail :: "state \<Rightarrow> state" where
  "exitIfDetail st = (if isDetail st then exitDetailView st else st)"

fun handle :: "event \<Rightarrow> state \<Rightarrow> state" where
  "handle (ByMonthChange checked m) st =
     updateVis (exitIfDetail
       (st\<lparr>selectedMonthKey := (if \<not> checked then MonthAll else MonthOf m)\<rparr>))"
| "handle (MonthSliderInput m) st =
     updateVis (exitIfDetail (st\<lparr>selectedMonthKey := MonthOf m\<rparr>))"
| "handle (MemberRadioChange v) st =
     updateVis (exitIfDetail
       (st\<lparr>selectedMember := (case v of Some k \<Rightarrow> k | None \<Rightarrow> MemAll)\<rparr>))"
| "handle BackButtonClick st = updateVis (exitDetailView st)"
| "handle (StationClick n) st = updateVis (goToDetail n st)"
| "handle (MinRouteSliderInput v) st = updateVis (st\<lparr>minRoutePercent := v\<rparr>)"
| "handle (HideLowNodesChange b) st = updateVis (exitIfDetail (st\<lparr>hideLowNodes := b\<rparr>))"
| "handle (ColorBlindChange b) st = updateVis (st\<lparr>colorBlind := b\<rparr>)"
| "handle (Mode3dChange b) st =
     updateVis (exitIfDetail (st\<lparr>mode3d := b, yaw := 0, pitch := 0\<rparr>))"

section \<open>The projection pipeline (script.js, depthFor, projectXY, redraw3d)\<close>











section \<open>The geocode resolver (script.js, normalizeName, getStationLatLng)\<close>

text \<open>
  normalizeName after its Unicode steps: runs of characters outside \<open>a-z0-9\<close> become one
  space, the ends are trimmed and runs of spaces collapsed. \<open>unicodeFold\<close> stands for the
  built-in \<open>toLowerCase().normalize('NFKD')\<close> followed by the removal of combining marks.
\<close>

definition is_lower_alnum :: "char \<Rightarrow> bool" where
  "is_lower_alnum ch =
     ((CHR ''a'' \<le> ch \<and> ch \<le> CHR ''z'') \<or> (CHR ''0'' \<le> ch \<and> ch \<le> CHR ''9''))"

fun squeeze_from :: "(char \<Rightarrow> bool) \<Rightarrow> bool \<Rightarrow> string \<Rightarrow> string" where
  "squeeze_from P in_run [] = []"
| "squeeze_from P in_run (ch # cs) =
     (if P ch then (if in_run then squeeze_from P True cs else CHR '' '' # squeeze_from P True cs)
      else ch # squeeze_from P False cs)"

definition squeeze_runs :: "(char \<Rightarrow> bool) \<Rightarrow> string \<Rightarrow> string" where
  "squeeze_runs P s = squeeze_from P False s"

definition trim :: "string \<Rightarrow> string" where
  "trim s = rev (dropWhile (\<lambda>ch. ch = CHR '' '') (rev (dropWhile (\<lambda>ch. ch = CHR '' '') s)))"

definition normalizeName :: "(string \<Rightarrow> string) \<Rightarrow> string \<Rightarrow> string" where
  "normalizeName unicodeFold name =
     squeeze_runs (\<lambda>ch. ch = CHR '' '')
       (trim (squeeze_runs (\<lambda>ch. \<not> is_lower_alnum ch) (unicodeFold name)))"

text \<open>
  \<open>((h << 5) - h) + ch.charCodeAt(0) | 0\<close>, again modulo \<open>2^32\<close>; the hash is then read as a
  signed number, shifted with sign (\<open>>>\<close>), and \<open>Math.abs(..) % 1000 / 999\<close> is taken.
\<close>

definition geoHash :: "string \<Rightarrow> 32 word" where
  "geoHash name = foldl (\<lambda>h ch. (push_bit 5 h - h) + of_nat (of_char ch)) 0 name"

definition unit_of :: "32 word \<Rightarrow> real" where
  "unit_of w = real_of_int (\<bar>sint w\<bar> mod 1000) / 999"

definition syntheticLatLng :: "state \<Rightarrow> string \<Rightarrow> latlng" where
  "syntheticLatLng st name =
     (let hash = geoHash name;
          minLat = 43.58; maxLat = 43.85;
          minLng = - 79.65; maxLng = - 79.12;
          u = unit_of hash;
          v = unit_of (signed_drop_bit 10 hash);
          lat0 = minLat + u * (maxLat - minLat);
          lng0 = minLng + v * (maxLng - minLng)
      in case geojson st of
           None \<Rightarrow> \<lparr>lat = Finite lat0, lng = Finite lng0\<rparr>
         | Some geoContains \<Rightarrow>
             if geoContains (lng0, lat0) then \<lparr>lat = Finite lat0, lng = Finite lng0\<rparr>
             else
               let c = (case torontoCentroid st of Some c0 \<Rightarrow> c0 | None \<Rightarrow> (- 79.3832, 43.6532));
                   jitterR = 0.01;
                   ju = (unit_of (signed_drop_bit 5 hash) - 0.5) * 2;
                   jv = (unit_of (signed_drop_bit 11 hash) - 0.5) * 2;
                   lng1 = fst c + ju * jitterR;
                   lat1 = snd c + jv * jitterR
               in if geoContains (lng1, lat1) then \<lparr>lat = Finite lat1, lng = Finite lng1\<rparr>
                  else \<lparr>lat = Finite (snd c), lng = Finite (fst c)\<rparr>)"

definition finite_entry :: "latlng option \<Rightarrow> latlng option" where
  "finite_entry r =
     (case r of
        None \<Rightarrow> None
      | Some ll \<Rightarrow> if isFinite (lat ll) \<and> isFinite (lng ll) then Some ll else None)"

definition getStationLatLng :: "(string \<Rightarrow> string) \<Rightarrow> state \<Rightarrow> string \<Rightarrow> latlng" where
  "getStationLatLng unicodeFold st name =
     (case finite_entry (stationPos st name) of
        Some ll \<Rightarrow> ll
      | None \<Rightarrow>
          (case finite_entry (stationPosNorm st (normalizeName unicodeFold name)) of
             Some ll \<Rightarrow> ll
           | None \<Rightarrow> syntheticLatLng st name))"

section \<open>Start-up and the synthetic demonstration data (script.js)\<close>

definition demoStart :: string where
  "demoStart = ''Demo Station (Synthetic)''"

text \<open>The five destinations, \<open>{ name, lat, lng, count }\<close>.\<close>

definition ends :: "(string \<times> real \<times> real \<times> nat) list" where
  "ends =
     [(''Union Station (Synthetic)'', 43.6450, - 79.3800, 40),
      (''Harbourfront (Synthetic)'', 43.6390, - 79.3800, 30),
      (''Chinatown (Synthetic)'', 43.6520, - 79.3980, 20),
      (''Distillery District (Synthetic)'', 43.6500, - 79.3590, 15),
      (''Kensington Market (Synthetic)'', 43.6550, - 79.4050, 10)]"

definition syntheticTrips :: "trip list" where
  "syntheticTrips =
     concat (map (\<lambda>e. map (\<lambda>i. \<lparr>start_station_name = demoStart,
                                  end_station_name = fst e,
                                  member_type = (if i mod 2 = 0 then Annual else Casual)\<rparr>)
                         [0 ..< snd (snd (snd e))]) ends)"

definition injectSyntheticIfNeeded :: "state \<Rightarrow> state" where
  "injectSyntheticIfNeeded st =
     (let totalTrips = foldl (\<lambda>sum m. sum + length (trips m)) 0 (allData st) in
      if totalTrips > 0 then st
      else st\<lparr>allData := allData st @ [\<lparr>mm = M09, trips = syntheticTrips\<rparr>],
              stationPos :=
                foldl (\<lambda>pos e. pos(fst e \<mapsto> \<lparr>lat = Finite (fst (snd e)),
                                              lng = Finite (fst (snd (snd e)))\<rparr>))
                  ((stationPos st)(demoStart \<mapsto> \<lparr>lat = Finite 43.6532, lng = Finite (- 79.3832)\<rparr>))
                  ends\<rparr>)"

text \<open>
  loadAllCSVs leaves one entry per file in \<open>state.allData\<close>, in the order of the twelve
  files, each with the rows of that file that passed the cleaning (\<open>cleanedTrips\<close>).
\<close>

definition months12 :: "month list" where
  "months12 = [M01, M02, M03, M04, M05, M06, M07, M08, M09, M10, M11, M12]"

definition loadAllCSVs :: "(month \<Rightarrow> trip list) \<Rightarrow> state \<Rightarrow> state" where
  "loadAllCSVs cleanedTrips st =
     st\<lparr>allData := map (\<lambda>m. \<lparr>mm = m, trips = cleanedTrips m\<rparr>) months12\<rparr>"

text \<open>\<open>container.clientWidth || 960\<close> and \<open>container.clientHeight || 600\<close>.\<close>

definition initCanvas :: "real \<Rightarrow> real \<Rightarrow> state \<Rightarrow> state" where
  "initCanvas clientWidth clientHeight st =
     st\<lparr>width := (if clientWidth = 0 then 960 else clientWidth),
        height := (if clientHeight = 0 then 600 else clientHeight)\<rparr>"

text \<open>
  The chain run once the files are loaded:
  \<open>buildCaches(); renderDebugTable(); updateTopStartTable(); initCanvas(); updateVis();\<close>.
  The two table functions write the page only.
\<close>

definition startup :: "(month \<Rightarrow> trip list) \<Rightarrow> real \<Rightarrow> real \<Rightarrow> state" where
  "startup cleanedTrips clientWidth clientHeight =
     (let st1 = loadAllCSVs cleanedTrips initState;
          st2 = st1\<lparr>caches := Some (buildCaches (allData st1))\<rparr>;
          st3 = initCanvas clientWidth clientHeight st2
      in updateVis st3)"

section \<open>Auxiliary notions for the proofs and example inputs\<close>

text \<open>What the selection reads of the state: the mode, the selection and the two filters.\<close>

definition same_view :: "state \<Rightarrow> state \<Rightarrow> bool" where
  "same_view st' st =
     (isDetail st' = isDetail st \<and> selectedStation st' = selectedStation st
      \<and> selectedMember st' = selectedMember st \<and> selectedMonthKey st' = selectedMonthKey st)"



text \<open>
  Inputs for the examples: a cleaned trip, and a data set whose January file holds the
  given trips while the other eleven files hold none.
\<close>

definition mk_trip :: "string \<Rightarrow> string \<Rightarrow> member_type \<Rightarrow> trip" where
  "mk_trip s e mt = \<lparr>start_station_name = s, end_station_name = e, member_type = mt\<rparr>"

definition january_only :: "trip list \<Rightarrow> month \<Rightarrow> trip list" where
  "january_only ts m = (if m = M01 then ts else [])"

section \<open>Properties of the cache\<close>

lemma map_get_map_set: "map_get (map_set m k v) k' = (if k' = k then Some v else map_get m k')"
  by (induction m) auto

lemma sum_map_set:
  "sum_list (map (\<lambda>kv. f (snd kv)) (map_set m k v)) + (case map_get m k of None \<Rightarrow> 0 | Some w \<Rightarrow> f w)
     = sum_list (map (\<lambda>kv. f (snd kv)) m) + (f v :: nat)"
  by (induction m) auto


lemma start_of_updateStation:
  "start_of (updateStation mp n' ty) n = start_of mp n + (if n = n' \<and> n' \<noteq> [] \<and> ty = CountStart then 1 else 0)"
  by (cases ty) (auto simp: start_of_def updateStation_def map_get_map_set Let_def split: option.splits)

lemma end_of_updateStation:
  "end_of (updateStation mp n' ty) n = end_of mp n + (if n = n' \<and> n' \<noteq> [] \<and> ty = CountEnd then 1 else 0)"
  by (cases ty) (auto simp: end_of_def updateStation_def map_get_map_set Let_def split: option.splits)

lemma stationAgg_applyMember:
  "stationAgg (applyMember m t c mem) mem' mk =
     (if mem' = mem \<and> (mk = MonthAll \<or> mk = MonthOf m)
      then updateStation (updateStation (stationAgg c mem' mk) (start_station_name t) CountStart)
             (end_station_name t) CountEnd
      else stationAgg c mem' mk)"
  by (auto simp: applyMember_def upd_cell_def Let_def)

lemma endRoutes_applyMember:
  "endRoutes (applyMember m t c mem) mem' mk =
     (if mem' = mem \<and> (mk = MonthAll \<or> mk = MonthOf m)
      then addRoute (endRoutes c mem' mk) (start_station_name t) (end_station_name t)
      else endRoutes c mem' mk)"
  by (auto simp: applyMember_def upd_cell_def Let_def)

lemma stationAgg_applyTrip:
  "stationAgg (applyTrip m c t) mem mk =
     (if fans_into mem mk m t
      then updateStation (updateStation (stationAgg c mem mk) (start_station_name t) CountStart)
             (end_station_name t) CountEnd
      else stationAgg c mem mk)"
  by (cases "member_type t")
     (auto simp: applyTrip_def applyMembers_def fans_into_def stationAgg_applyMember)

lemma endRoutes_applyTrip:
  "endRoutes (applyTrip m c t) mem mk =
     (if fans_into mem mk m t
      then addRoute (endRoutes c mem mk) (start_station_name t) (end_station_name t)
      else endRoutes c mem mk)"
  by (cases "member_type t")
     (auto simp: applyTrip_def applyMembers_def fans_into_def endRoutes_applyMember)

lemma start_count_applyTrip:
  "start_station_name t \<noteq> [] \<Longrightarrow>
   start_count (applyTrip m c t) mem mk (start_station_name t) =
     start_count c mem mk (start_station_name t) + (if fans_into mem mk m t then 1 else 0)"
  using start_of_updateStation by (simp add: start_count_def stationAgg_applyTrip start_of_def)

lemma end_count_applyTrip:
  "end_station_name t \<noteq> [] \<Longrightarrow>
   end_count (applyTrip m c t) mem mk (end_station_name t) =
     end_count c mem mk (end_station_name t) + (if fans_into mem mk m t then 1 else 0)"
  using end_of_updateStation by (simp add: end_count_def stationAgg_applyTrip end_of_def)

lemma route_count_addRoute:
  "(case map_get (addRoute r s e) s' of None \<Rightarrow> 0
      | Some mp \<Rightarrow> (case map_get mp e' of None \<Rightarrow> 0 | Some k \<Rightarrow> k)) =
   (case map_get r s' of None \<Rightarrow> 0
      | Some mp \<Rightarrow> (case map_get mp e' of None \<Rightarrow> 0 | Some k \<Rightarrow> k)) + (if s' = s \<and> e' = e then 1 else 0)"
  by (auto simp: addRoute_def map_get_map_set Let_def split: option.splits)

lemma route_count_applyTrip:
  "route_count (applyTrip m c t) mem mk (start_station_name t) (end_station_name t) =
     route_count c mem mk (start_station_name t) (end_station_name t)
       + (if fans_into mem mk m t then 1 else 0)"
  by (simp add: route_count_def endRoutes_applyTrip route_count_addRoute)


lemma sum_map_set_eq:
  "sum_list (map (\<lambda>kv. f (snd kv)) (map_set m k v)) =
     sum_list (map (\<lambda>kv. f (snd kv)) m) + (f v :: nat)
       - (case map_get m k of None \<Rightarrow> 0 | Some w \<Rightarrow> f w)"
  using sum_map_set [of f m k v] by arith

lemma sum_start_updateStation:
  "sum_list (map (\<lambda>kv. rec_start (snd kv)) (updateStation mp n ty)) =
     sum_list (map (\<lambda>kv. rec_start (snd kv)) mp) + (if n \<noteq> [] \<and> ty = CountStart then 1 else 0)"
  by (cases ty) (auto simp: updateStation_def Let_def sum_map_set_eq split: option.splits)

lemma sum_end_updateStation:
  "sum_list (map (\<lambda>kv. rec_end (snd kv)) (updateStation mp n ty)) =
     sum_list (map (\<lambda>kv. rec_end (snd kv)) mp) + (if n \<noteq> [] \<and> ty = CountEnd then 1 else 0)"
  by (cases ty) (auto simp: updateStation_def Let_def sum_map_set_eq split: option.splits)

lemma sum_snd_map_set:
  "sum_list (map snd (map_set mp e v)) + (case map_get mp e of None \<Rightarrow> 0 | Some w \<Rightarrow> w)
     = sum_list (map snd mp) + (v :: nat)"
  using sum_map_set [of "\<lambda>x. x" mp e v] by (simp add: comp_def)

lemma sum_addRoute:
  "sum_list (map (\<lambda>kv. sum_list (map snd (snd kv))) (addRoute r s e)) =
     sum_list (map (\<lambda>kv. sum_list (map snd (snd kv))) r) + 1"
proof -
  define mp where "mp = (case map_get r s of None \<Rightarrow> [] | Some m0 \<Rightarrow> m0)"
  define old where "old = (case map_get mp e of None \<Rightarrow> 0 | Some c \<Rightarrow> c)"
  have inner: "sum_list (map snd (map_set mp e (old + 1))) = sum_list (map snd mp) + 1"
    using sum_snd_map_set [of mp e "old + 1"] by (simp add: old_def split: option.splits)
  have outer: "sum_list (map (\<lambda>kv. sum_list (map snd (snd kv))) (map_set r s (map_set mp e (old + 1))))
                 + sum_list (map snd mp)
               = sum_list (map (\<lambda>kv. sum_list (map snd (snd kv))) r)
                 + sum_list (map snd (map_set mp e (old + 1)))"
    using sum_map_set [of "\<lambda>m. sum_list (map snd m)" r s "map_set mp e (old + 1)"]
    by (simp add: mp_def split: option.splits)
  have "addRoute r s e = map_set r s (map_set mp e (old + 1))"
    by (simp add: addRoute_def mp_def old_def Let_def)
  with inner outer show ?thesis by simp
qed

lemma total_start_applyTrip:
  "cleaned t \<Longrightarrow> total_start (applyTrip m c t) mem mk =
     total_start c mem mk + (if fans_into mem mk m t then 1 else 0)"
  by (simp add: total_start_def stationAgg_applyTrip sum_start_updateStation cleaned_def)

lemma total_end_applyTrip:
  "cleaned t \<Longrightarrow> total_end (applyTrip m c t) mem mk =
     total_end c mem mk + (if fans_into mem mk m t then 1 else 0)"
  by (simp add: total_end_def stationAgg_applyTrip sum_end_updateStation cleaned_def)

lemma total_routes_applyTrip:
  "total_routes (applyTrip m c t) mem mk =
     total_routes c mem mk + (if fans_into mem mk m t then 1 else 0)"
  by (simp add: total_routes_def endRoutes_applyTrip sum_addRoute)

lemma balanced_applyTrips:
  "\<forall>t \<in> set ts. cleaned t \<Longrightarrow> balanced_by c mem mk k \<Longrightarrow>
   balanced_by (foldl (applyTrip m) c ts) mem mk (k + length (filter (fans_into mem mk m) ts))"
proof (induction ts arbitrary: c k)
  case Nil
  then show ?case by simp
next
  case (Cons t ts)
  have "balanced_by (applyTrip m c t) mem mk (k + (if fans_into mem mk m t then 1 else 0))"
    using Cons.prems
    by (simp add: balanced_by_def total_start_applyTrip total_end_applyTrip total_routes_applyTrip)
  from Cons.IH [OF _ this] Cons.prems(1) show ?case
    by (cases "fans_into mem mk m t") (simp_all add: add.assoc)
qed

lemma balanced_applyMonths:
  "\<forall>mo \<in> set ds. \<forall>t \<in> set (trips mo). cleaned t \<Longrightarrow> balanced_by c mem mk k \<Longrightarrow>
   balanced_by (foldl applyMonth c ds) mem mk (k + contributions mem mk ds)"
proof (induction ds arbitrary: c k)
  case Nil
  then show ?case by (simp add: contributions_def)
next
  case (Cons mo ds)
  have "balanced_by (applyMonth c mo) mem mk
          (k + length (filter (fans_into mem mk (mm mo)) (trips mo)))"
    unfolding applyMonth_def using Cons.prems by (intro balanced_applyTrips) simp_all
  from Cons.IH [OF _ this] Cons.prems(1) show ?case
    by (simp add: contributions_def add.assoc)
qed

text \<open>
  buildCaches runs the loop body once per trip, in order: the cache after the last trip
  is the loop body applied to the cache before it.
\<close>

lemma buildCaches_last_trip:
  "buildCaches (ds @ [\<lparr>mm = m, trips = ts @ [t]\<rparr>])
     = applyTrip m (buildCaches (ds @ [\<lparr>mm = m, trips = ts\<rparr>])) t"
  by (simp add: buildCaches_def applyMonth_def)

text \<open>
  The example of six trips in one month: three Annual trips A \<rightarrow> B, two Casual trips
  A \<rightarrow> C and one Annual trip B \<rightarrow> A.
\<close>

lemma example_scenario:
  "map (\<lambda>kv. (fst kv, rec_start (snd kv), rec_end (snd kv)))
     (stationAgg (buildCaches [\<lparr>mm = M06, trips =
        [mk_trip ''A'' ''B'' Annual, mk_trip ''A'' ''B'' Annual, mk_trip ''A'' ''B'' Annual,
         mk_trip ''A'' ''C'' Casual, mk_trip ''A'' ''C'' Casual,
         mk_trip ''B'' ''A'' Annual]\<rparr>]) MemAll MonthAll)
     = [(''A'', 5, 1), (''B'', 1, 3), (''C'', 0, 2)]
   \<and> map (\<lambda>kv. (fst kv, rec_start (snd kv), rec_end (snd kv)))
     (stationAgg (buildCaches [\<lparr>mm = M06, trips =
        [mk_trip ''A'' ''B'' Annual, mk_trip ''A'' ''B'' Annual, mk_trip ''A'' ''B'' Annual,
         mk_trip ''A'' ''C'' Casual, mk_trip ''A'' ''C'' Casual,
         mk_trip ''B'' ''A'' Annual]\<rparr>]) MemAnnual MonthAll)
     = [(''A'', 3, 1), (''B'', 1, 3)]
   \<and> map_get (endRoutes (buildCaches [\<lparr>mm = M06, trips =
        [mk_trip ''A'' ''B'' Annual, mk_trip ''A'' ''B'' Annual, mk_trip ''A'' ''B'' Annual,
         mk_trip ''A'' ''C'' Casual, mk_trip ''A'' ''C'' Casual,
         mk_trip ''B'' ''A'' Annual]\<rparr>]) MemAll MonthAll) ''A''
     = Some [(''B'', 3), (''C'', 2)]"
  by code_simp

section \<open>Claims about the aggregation cache\<close>

text \<open>
  C1. Fan-out of one trip. The loop body of buildCaches, run for a cleaned trip of month
  \<open>m\<close> on the cache \<open>c\<close> built so far, whatever it is: when the trip's member type is Annual, the start count of its
  start station, the end count of its end station and the count of its route each grow by
  exactly 1 in the four cells (All, All), (Annual, All), (All, m), (Annual, m), and every
  other cell is left as it was; when the member type is Other, they grow by exactly 1 in
  the two cells (All, All) and (All, m), and every cell of the Annual and Casual member
  buckets (indeed every other cell) is left as it was.
\<close>

theorem fan_out_of_a_trip:
  assumes "cleaned t"
  shows "(member_type t = Annual \<longrightarrow>
            incremented c (applyTrip m c t) t MemAll MonthAll
          \<and> incremented c (applyTrip m c t) t MemAnnual MonthAll
          \<and> incremented c (applyTrip m c t) t MemAll (MonthOf m)
          \<and> incremented c (applyTrip m c t) t MemAnnual (MonthOf m)
          \<and> (\<forall>mem mk. (mem = MemCasual \<or> (mk \<noteq> MonthAll \<and> mk \<noteq> MonthOf m))
                \<longrightarrow> untouched c (applyTrip m c t) mem mk))
       \<and> (member_type t = Other \<longrightarrow>
            incremented c (applyTrip m c t) t MemAll MonthAll
          \<and> incremented c (applyTrip m c t) t MemAll (MonthOf m)
          \<and> (\<forall>mk. untouched c (applyTrip m c t) MemAnnual mk
                  \<and> untouched c (applyTrip m c t) MemCasual mk)
          \<and> (\<forall>mk. mk \<noteq> MonthAll \<and> mk \<noteq> MonthOf m
                \<longrightarrow> untouched c (applyTrip m c t) MemAll mk))"
proof -
  have names: "start_station_name t \<noteq> []" "end_station_name t \<noteq> []"
    using assms by (simp_all add: cleaned_def)
  have inc: "incremented c (applyTrip m c t) t mem mk" if "fans_into mem mk m t" for mem mk
    using that names
    by (simp add: incremented_def start_count_applyTrip end_count_applyTrip route_count_applyTrip)
  have same: "untouched c (applyTrip m c t) mem mk" if "\<not> fans_into mem mk m t" for mem mk
    using that by (simp add: untouched_def stationAgg_applyTrip endRoutes_applyTrip)
  show ?thesis
  proof (intro conjI impI allI)
    assume a: "member_type t = Annual"
    show "incremented c (applyTrip m c t) t MemAll MonthAll"
      by (rule inc) (simp add: fans_into_def applyMembers_def a)
    show "incremented c (applyTrip m c t) t MemAnnual MonthAll"
      by (rule inc) (simp add: fans_into_def applyMembers_def a)
    show "incremented c (applyTrip m c t) t MemAll (MonthOf m)"
      by (rule inc) (simp add: fans_into_def applyMembers_def a)
    show "incremented c (applyTrip m c t) t MemAnnual (MonthOf m)"
      by (rule inc) (simp add: fans_into_def applyMembers_def a)
    fix mem mk
    assume "mem = MemCasual \<or> (mk \<noteq> MonthAll \<and> mk \<noteq> MonthOf m)"
    then show "untouched c (applyTrip m c t) mem mk"
      by (intro same) (auto simp: fans_into_def applyMembers_def a)
  next
    assume o: "member_type t = Other"
    show "incremented c (applyTrip m c t) t MemAll MonthAll"
      by (rule inc) (simp add: fans_into_def applyMembers_def o)
    show "incremented c (applyTrip m c t) t MemAll (MonthOf m)"
      by (rule inc) (simp add: fans_into_def applyMembers_def o)
    fix mk
    show "untouched c (applyTrip m c t) MemAnnual mk"
      by (rule same) (simp add: fans_into_def applyMembers_def o)
    show "untouched c (applyTrip m c t) MemCasual mk"
      by (rule same) (simp add: fans_into_def applyMembers_def o)
    assume "mk \<noteq> MonthAll \<and> mk \<noteq> MonthOf m"
    then show "untouched c (applyTrip m c t) MemAll mk"
      by (intro same) (simp add: fans_into_def)
  qed
qed

theorem fan_out_of_a_trip_witness:
  "cleaned \<lparr>start_station_name = ''A'', end_station_name = ''B'', member_type = Annual\<rparr>
   \<and> incremented emptyCache
        (applyTrip M03 emptyCache
           \<lparr>start_station_name = ''A'', end_station_name = ''B'', member_type = Annual\<rparr>)
        \<lparr>start_station_name = ''A'', end_station_name = ''B'', member_type = Annual\<rparr>
        MemAnnual (MonthOf M03)
   \<and> untouched emptyCache
        (applyTrip M03 emptyCache
           \<lparr>start_station_name = ''A'', end_station_name = ''B'', member_type = Annual\<rparr>)
        MemCasual MonthAll
   \<and> cleaned \<lparr>start_station_name = ''A'', end_station_name = ''A'', member_type = Other\<rparr>
   \<and> incremented emptyCache
        (applyTrip M12 emptyCache
           \<lparr>start_station_name = ''A'', end_station_name = ''A'', member_type = Other\<rparr>)
        \<lparr>start_station_name = ''A'', end_station_name = ''A'', member_type = Other\<rparr>
        MemAll (MonthOf M12)
   \<and> untouched emptyCache
        (applyTrip M12 emptyCache
           \<lparr>start_station_name = ''A'', end_station_name = ''A'', member_type = Other\<rparr>)
        MemAnnual (MonthOf M12)"
  using fan_out_of_a_trip
          [of "\<lparr>start_station_name = ''A'', end_station_name = ''B'', member_type = Annual\<rparr>"
              emptyCache M03]
        fan_out_of_a_trip
          [of "\<lparr>start_station_name = ''A'', end_station_name = ''A'', member_type = Other\<rparr>"
              emptyCache M12]
  by (simp add: cleaned_def)

text \<open>
  C10. Balance of every cell. When every trip of the data set is cleaned (both station
  names are non-empty), then in every cell of the cache that buildCaches returns the sum
  of the start counts, the sum of the end counts and the sum of the route counts are all
  equal to the number of trips fanned out into that cell.
\<close>

theorem cache_balance:
  assumes "\<forall>mo \<in> set ds. \<forall>t \<in> set (trips mo). cleaned t"
  shows "total_start (buildCaches ds) mem mk = contributions mem mk ds
       \<and> total_end (buildCaches ds) mem mk = contributions mem mk ds
       \<and> total_routes (buildCaches ds) mem mk = contributions mem mk ds"
proof -
  have "balanced_by emptyCache mem mk 0"
    by (simp add: balanced_by_def emptyCache_def total_start_def total_end_def total_routes_def)
  from balanced_applyMonths [OF assms this] show ?thesis
    by (simp add: buildCaches_def balanced_by_def)
qed

theorem cache_balance_witness:
  "total_start (buildCaches [\<lparr>mm = M01, trips =
        [\<lparr>start_station_name = ''A'', end_station_name = ''B'', member_type = Annual\<rparr>,
         \<lparr>start_station_name = ''B'', end_station_name = ''A'', member_type = Other\<rparr>]\<rparr>])
        MemAll MonthAll = 2
   \<and> total_end (buildCaches [\<lparr>mm = M01, trips =
        [\<lparr>start_station_name = ''A'', end_station_name = ''B'', member_type = Annual\<rparr>,
         \<lparr>start_station_name = ''B'', end_station_name = ''A'', member_type = Other\<rparr>]\<rparr>])
        MemAll MonthAll = 2
   \<and> total_routes (buildCaches [\<lparr>mm = M01, trips =
        [\<lparr>start_station_name = ''A'', end_station_name = ''B'', member_type = Annual\<rparr>,
         \<lparr>start_station_name = ''B'', end_station_name = ''A'', member_type = Other\<rparr>]\<rparr>])
        MemAll MonthAll = 2"
  using cache_balance
          [of "[\<lparr>mm = M01, trips =
        [\<lparr>start_station_name = ''A'', end_station_name = ''B'', member_type = Annual\<rparr>,
         \<lparr>start_station_name = ''B'', end_station_name = ''A'', member_type = Other\<rparr>]\<rparr>]"
              MemAll MonthAll]
  by (simp add: cleaned_def contributions_def fans_into_def applyMembers_def)

section \<open>Claims about the view state machine\<close>

lemma isDetail_updateVis: "isDetail (updateVis st) = isDetail st"
  by (simp add: updateVis_def split: option.splits)

lemma selectedStation_updateVis: "selectedStation (updateVis st) = selectedStation st"
  by (simp add: updateVis_def split: option.splits)

lemma exitDetailView_overview:
  "\<not> isDetail (exitDetailView st) \<and> selectedStation (exitDetailView st) = None"
  by (simp add: exitDetailView_def isDetail_updateVis selectedStation_updateVis)

lemma exitIfDetail_not_detail: "\<not> isDetail (exitIfDetail st)"
  by (simp add: exitIfDetail_def exitDetailView_overview)

lemma exitIfDetail_from_detail:
  "isDetail st \<Longrightarrow> selectedStation (exitIfDetail st) = None"
  by (simp add: exitIfDetail_def exitDetailView_overview)

text \<open>
  C7. From the detail view of a station, a change of the by-month toggle, of the month
  slider or of the member radio leaves the state in overview with no selected station
  (\<open>isDetail = false\<close>, \<open>selectedStation = null\<close>), and so does the back button from any
  state; after any of these events, from whatever state, the view is not in detail mode.
\<close>

theorem filter_change_returns_to_overview:
  "(isDetail st \<longrightarrow>
       selectedStation (handle (ByMonthChange checked m) st) = None
     \<and> selectedStation (handle (MonthSliderInput m) st) = None
     \<and> selectedStation (handle (MemberRadioChange v) st) = None)
   \<and> \<not> isDetail (handle (ByMonthChange checked m) st)
   \<and> \<not> isDetail (handle (MonthSliderInput m) st)
   \<and> \<not> isDetail (handle (MemberRadioChange v) st)
   \<and> \<not> isDetail (handle BackButtonClick st)
   \<and> selectedStation (handle BackButtonClick st) = None"
  by (simp add: isDetail_updateVis selectedStation_updateVis exitIfDetail_not_detail
        exitIfDetail_from_detail exitDetailView_overview)

theorem filter_change_returns_to_overview_witness:
  "isDetail (handle (StationClick ''Union Station'') initState)
   \<and> selectedStation (handle (StationClick ''Union Station'') initState) = Some ''Union Station''
   \<and> selectedStation (handle (ByMonthChange True M07)
        (handle (StationClick ''Union Station'') initState)) = None
   \<and> selectedStation (handle (MonthSliderInput M07)
        (handle (StationClick ''Union Station'') initState)) = None
   \<and> selectedStation (handle (MemberRadioChange (Some MemCasual))
        (handle (StationClick ''Union Station'') initState)) = None
   \<and> \<not> isDetail (handle (MonthSliderInput M07)
        (handle (StationClick ''Union Station'') initState))"
  using filter_change_returns_to_overview
          [of "handle (StationClick ''Union Station'') initState" True M07 "Some MemCasual"]
  by (simp add: isDetail_updateVis selectedStation_updateVis goToDetail_def)

section \<open>Claims about node selection\<close>

lemma sorted_sort_desc:
  "sorted_wrt (\<lambda>a b. key a \<ge> key b) (sort_desc key xs)"
proof -
  have "sorted (map (\<lambda>x. - int (key x)) (sort_desc key xs))"
    unfolding sort_desc_def by (rule sorted_sort_key)
  then show ?thesis by (simp add: sorted_map)
qed

lemma sort_desc_stable:
  "filter (\<lambda>x. key x = k) (sort_desc key xs) = filter (\<lambda>x. key x = k) xs"
proof -
  have "filter (\<lambda>x. - int (key x) = - int k) (sort_key (\<lambda>x. - int (key x)) xs)
          = filter (\<lambda>x. - int (key x) = - int k) xs"
    by (rule sort_key_stable)
  then show ?thesis by (simp add: sort_desc_def)
qed

lemma sorted_wrt_take_ge: "sorted_wrt R xs \<Longrightarrow> sorted_wrt R (take n xs)"
  by (metis append_take_drop_id sorted_wrt_append)

text \<open>
  C5, as the code has it. Node selection reads the station records of the current
  (member, month) cell, gives each the total \<open>start + end\<close>, sorts them by descending
  total and keeps the first 60 (all of them when there are fewer). The sort compares
  totals only: stations of equal total stay in the order in which the cell first recorded
  them (for every total \<open>k\<close>, the kept stations of total \<open>k\<close> are an initial part of the
  cell's stations of total \<open>k\<close>, in the cell's order). Names play no part in the order.
\<close>

theorem node_selection:
  "map node_total (allNodes c st) = map (\<lambda>kv. rec_start (snd kv) + rec_end (snd kv)) (aggMap c st)
   \<and> nodes c st = take 60 (sort_desc node_total (allNodes c st))
   \<and> length (nodes c st) = min 60 (length (aggMap c st))
   \<and> mset (sort_desc node_total (allNodes c st)) = mset (allNodes c st)
   \<and> sorted_wrt (\<lambda>a b. node_total a \<ge> node_total b) (nodes c st)
   \<and> prefix (filter (\<lambda>n. node_total n = k) (nodes c st))
        (filter (\<lambda>n. node_total n = k) (allNodes c st))"
proof (intro conjI)
  show "prefix (filter (\<lambda>n. node_total n = k) (nodes c st))
          (filter (\<lambda>n. node_total n = k) (allNodes c st))"
    using filter_mono_prefix [OF take_is_prefix, of "\<lambda>n. node_total n = k" MAX_NODES
            "sort_desc node_total (allNodes c st)"]
    by (simp add: nodes_def sort_desc_stable)
  show "sorted_wrt (\<lambda>a b. node_total a \<ge> node_total b) (nodes c st)"
    unfolding nodes_def by (intro sorted_wrt_take_ge sorted_sort_desc)
qed (simp_all add: nodes_def allNodes_def MAX_NODES_def sort_desc_def comp_def)

text \<open>
  The claim as written, that of two kept stations of equal total the one with the smaller
  name comes first, fails on the single trip B \<rightarrow> A: the cell records B (as start) before
  A (as end), both have total 1, and the selection keeps B before A.
\<close>

theorem node_ties_counterexample:
  "map node_name (nodes (buildCaches [\<lparr>mm = M01, trips =
          [\<lparr>start_station_name = ''B'', end_station_name = ''A'', member_type = Annual\<rparr>]\<rparr>])
          initState) = [''B'', ''A'']
   \<and> map node_total (nodes (buildCaches [\<lparr>mm = M01, trips =
          [\<lparr>start_station_name = ''B'', end_station_name = ''A'', member_type = Annual\<rparr>]\<rparr>])
          initState) = [1, 1]
   \<and> ''A'' < ''B''"
  by code_simp

section \<open>Claims about the percentile threshold\<close>

text \<open>The interpolating case of quantileSorted, its bounds, and its monotonicity in p.\<close>

lemma interp_between:
  fixes a b f :: real
  assumes "a \<le> b" "0 \<le> f" "f \<le> 1"
  shows "a \<le> a + (b - a) * f" and "a + (b - a) * f \<le> b"
proof -
  have "0 \<le> (b - a) * f" using assms by simp
  then show "a \<le> a + (b - a) * f" by simp
  have "(b - a) * f \<le> (b - a) * 1" using assms by (intro mult_left_mono) simp_all
  then show "a + (b - a) * f \<le> b" by simp
qed

lemma quantile_inner:
  assumes n: "2 \<le> length vs" and p: "0 < p" "p < 1"
  defines "i \<equiv> (real (length vs) - 1) * p"
  defines "i0 \<equiv> nat \<lfloor>i\<rfloor>"
  shows "i0 + 1 < length vs"
    and "real i0 \<le> i" and "i - real i0 < 1"
    and "quantile_or_zero vs p = vs ! i0 + (vs ! (i0 + 1) - vs ! i0) * (i - real i0)"
proof -
  have pos: "0 \<le> i" using n p by (simp add: i_def)
  have "i < real (length vs) - 1"
    using n p by (simp add: i_def)
  then have "\<lfloor>i\<rfloor> < int (length vs) - 1" by linarith
  then show "i0 + 1 < length vs" using pos by (simp add: i0_def) linarith
  show "real i0 \<le> i" using pos by (simp add: i0_def)
  show "i - real i0 < 1" using pos by (simp add: i0_def) linarith
  have "vs \<noteq> []" using n by auto
  then show "quantile_or_zero vs p = vs ! i0 + (vs ! (i0 + 1) - vs ! i0) * (i - real i0)"
    using n p by (simp add: quantile_or_zero_def quantileSorted_def Let_def i_def i0_def)
qed

lemma quantile_inner_bounds:
  assumes s: "sorted vs" and n: "2 \<le> length vs" and p: "0 < p" "p < 1"
  shows "vs ! nat \<lfloor>(real (length vs) - 1) * p\<rfloor> \<le> quantile_or_zero vs p"
    and "quantile_or_zero vs p \<le> vs ! (nat \<lfloor>(real (length vs) - 1) * p\<rfloor> + 1)"
proof -
  let ?i = "(real (length vs) - 1) * p"
  let ?k = "nat \<lfloor>(real (length vs) - 1) * p\<rfloor>"
  note q = quantile_inner [OF n p]
  have le: "vs ! ?k \<le> vs ! (?k + 1)"
    using s q(1) by (intro sorted_nth_mono) simp_all
  have f: "0 \<le> ?i - real ?k" "?i - real ?k \<le> 1" using q(2,3) by simp_all
  show "vs ! ?k \<le> quantile_or_zero vs p"
    unfolding q(4) using interp_between(1) [OF le f] .
  show "quantile_or_zero vs p \<le> vs ! (?k + 1)"
    unfolding q(4) using interp_between(2) [OF le f] .
qed

lemma quantile_low: "vs \<noteq> [] \<Longrightarrow> p \<le> 0 \<or> length vs < 2 \<Longrightarrow> quantile_or_zero vs p = vs ! 0"
  by (auto simp: quantile_or_zero_def quantileSorted_def Let_def)

lemma quantile_high: "2 \<le> length vs \<Longrightarrow> 1 \<le> p \<Longrightarrow> quantile_or_zero vs p = vs ! (length vs - 1)"
  by (auto simp: quantile_or_zero_def quantileSorted_def Let_def)

lemma quantile_ge_first:
  assumes "sorted vs" "vs \<noteq> []"
  shows "vs ! 0 \<le> quantile_or_zero vs p"
proof -
  consider "p \<le> 0 \<or> length vs < 2" | "2 \<le> length vs" "1 \<le> p" | "2 \<le> length vs" "0 < p" "p < 1"
    by linarith
  then show ?thesis
  proof cases
    case 1
    then show ?thesis using assms by (simp add: quantile_low)
  next
    case 2
    then show ?thesis using assms by (simp add: quantile_high sorted_nth_mono)
  next
    case 3
    have "vs ! 0 \<le> vs ! nat \<lfloor>(real (length vs) - 1) * p\<rfloor>"
      using assms(1) quantile_inner(1) [OF 3] by (intro sorted_nth_mono) simp_all
    with quantile_inner_bounds(1) [OF assms(1) 3] show ?thesis by simp
  qed
qed

lemma quantile_le_last:
  assumes "sorted vs" "vs \<noteq> []"
  shows "quantile_or_zero vs p \<le> vs ! (length vs - 1)"
proof -
  consider "p \<le> 0 \<or> length vs < 2" | "2 \<le> length vs" "1 \<le> p" | "2 \<le> length vs" "0 < p" "p < 1"
    by linarith
  then show ?thesis
  proof cases
    case 1
    then show ?thesis using assms by (simp add: quantile_low sorted_nth_mono)
  next
    case 2
    then show ?thesis by (simp add: quantile_high)
  next
    case 3
    have "vs ! (nat \<lfloor>(real (length vs) - 1) * p\<rfloor> + 1) \<le> vs ! (length vs - 1)"
      using assms(1) quantile_inner(1) [OF 3] by (intro sorted_nth_mono) simp_all
    with quantile_inner_bounds(2) [OF assms(1) 3] show ?thesis by simp
  qed
qed

lemma quantile_mono:
  assumes s: "sorted vs" and le: "p1 \<le> p2"
  shows "quantile_or_zero vs p1 \<le> quantile_or_zero vs p2"
proof (cases "vs = []")
  case True
  then show ?thesis by (simp add: quantile_or_zero_def quantileSorted_def)
next
  case ne: False
  consider "p1 \<le> 0 \<or> length vs < 2" | "2 \<le> length vs" "1 \<le> p2"
    | "2 \<le> length vs" "0 < p1" "p2 < 1"
    by linarith
  then show ?thesis
  proof cases
    case 1
    then have "quantile_or_zero vs p1 = vs ! 0" using ne by (simp add: quantile_low)
    then show ?thesis using quantile_ge_first [OF s ne] by simp
  next
    case 2
    then have "quantile_or_zero vs p2 = vs ! (length vs - 1)" by (simp add: quantile_high)
    then show ?thesis using quantile_le_last [OF s ne] by simp
  next
    case 3
    have p1: "0 < p1" "p1 < 1" and p2: "0 < p2" "p2 < 1" using 3 le by simp_all
    let ?n = "real (length vs) - 1"
    let ?k1 = "nat \<lfloor>?n * p1\<rfloor>" and ?k2 = "nat \<lfloor>?n * p2\<rfloor>"
    note q1 = quantile_inner [OF 3(1) p1] and q2 = quantile_inner [OF 3(1) p2]
    have i_le: "?n * p1 \<le> ?n * p2" using 3(1) le by (intro mult_left_mono) simp_all
    then have k_le: "?k1 \<le> ?k2" by (intro nat_mono floor_mono)
    show ?thesis
    proof (cases "?k1 = ?k2")
      case True
      have step: "vs ! ?k2 \<le> vs ! (?k2 + 1)"
        using s q2(1) by (intro sorted_nth_mono) simp_all
      have "(vs ! (?k2 + 1) - vs ! ?k2) * (?n * p1 - real ?k2)
              \<le> (vs ! (?k2 + 1) - vs ! ?k2) * (?n * p2 - real ?k2)"
        using step i_le by (intro mult_left_mono) simp_all
      then show ?thesis unfolding q1(4) q2(4) True by simp
    next
      case False
      then have "?k1 + 1 \<le> ?k2" using k_le by simp
      then have "vs ! (?k1 + 1) \<le> vs ! ?k2"
        using s q2(1) by (intro sorted_nth_mono) simp_all
      with quantile_inner_bounds(2) [OF s 3(1) p1] quantile_inner_bounds(1) [OF s 3(1) p2]
      show ?thesis by linarith
    qed
  qed
qed

lemma nodes_cong: "same_view st' st \<Longrightarrow> nodes c st' = nodes c st"
  by (simp add: same_view_def nodes_def allNodes_def aggMap_def)

lemma included_cong: "same_view st' st \<Longrightarrow> included c st' = included c st"
  by (rule ext) (simp add: included_def nodes_cong)

lemma sourceLinks_cong: "same_view st' st \<Longrightarrow> sourceLinks c st' src = sourceLinks c st src"
  by (simp add: sourceLinks_def routes_def Let_def included_cong [of st' st] same_view_def
        cong: option.case_cong)

lemma linksRaw_cong: "same_view st' st \<Longrightarrow> linksRaw c st' = linksRaw c st"
  by (simp add: linksRaw_def nodes_cong sourceLinks_cong)

lemma linksRaw_minRoutePercent [simp]:
  "linksRaw c (st\<lparr>minRoutePercent := p\<rparr>) = linksRaw c st"
  by (rule linksRaw_cong) (simp add: same_view_def)

lemma values_sorted_minRoutePercent [simp]:
  "values_sorted c (st\<lparr>minRoutePercent := p\<rparr>) = values_sorted c st"
  by (simp add: values_sorted_def)

lemma detailSelected_minRoutePercent [simp]:
  "detailSelected (st\<lparr>minRoutePercent := p\<rparr>) = detailSelected st"
  by (simp add: detailSelected_def)

lemma sorted_real_values: "sorted (map real (values_sorted c st))"
proof -
  have "sorted (values_sorted c st)" by (simp add: values_sorted_def)
  then show ?thesis
    by (simp add: sorted_map sorted_wrt_mono_rel [of _ "(\<le>)"])
qed

lemma thresholdCount_mono:
  assumes "p1 \<le> p2"
  shows "thresholdCount c (st\<lparr>minRoutePercent := p1\<rparr>) \<le> thresholdCount c (st\<lparr>minRoutePercent := p2\<rparr>)"
proof -
  have "p1 / 100 \<le> p2 / 100" using assms by simp
  from quantile_mono [OF sorted_real_values this, of c st] show ?thesis
    by (simp add: thresholdCount_def Let_def floor_mono)
qed

lemma length_filter_antitone:
  fixes t1 t2 :: int
  assumes "t1 \<le> t2"
  shows "length (filter (\<lambda>l. t2 \<le> f l) xs) \<le> length (filter (\<lambda>l. t1 \<le> f l) xs)"
  using assms by (induction xs) auto


text \<open>
  C4. With the cache, the filters and the other controls fixed, raising the percentile
  never raises the number of edges that survive the threshold: for \<open>p1 \<le> p2\<close> the edge
  list at \<open>p2\<close> is no longer than the edge list at \<open>p1\<close>. (In detail mode the list does
  not depend on the percentile at all, so the statement needs no mode.)
\<close>

theorem percentile_monotone:
  assumes "p1 \<le> p2"
  shows "length (links c (st\<lparr>minRoutePercent := p2\<rparr>))
           \<le> length (links c (st\<lparr>minRoutePercent := p1\<rparr>))"
proof (cases "detailSelected st")
  case None
  then show ?thesis
    using length_filter_antitone [OF thresholdCount_mono [OF assms]]
    by (simp add: links_def)
next
  case (Some s)
  then show ?thesis by (simp add: links_def)
qed

theorem percentile_monotone_witness:
  "(25::real) \<le> 75
   \<and> length (links
        (buildCaches (allData (startup (january_only
           [mk_trip ''A'' ''B'' Annual, mk_trip ''A'' ''B'' Annual, mk_trip ''A'' ''B'' Casual,
            mk_trip ''B'' ''A'' Other]) 960 600)))
        ((startup (january_only
           [mk_trip ''A'' ''B'' Annual, mk_trip ''A'' ''B'' Annual, mk_trip ''A'' ''B'' Casual,
            mk_trip ''B'' ''A'' Other]) 960 600)\<lparr>minRoutePercent := 75\<rparr>))
     \<le> length (links
        (buildCaches (allData (startup (january_only
           [mk_trip ''A'' ''B'' Annual, mk_trip ''A'' ''B'' Annual, mk_trip ''A'' ''B'' Casual,
            mk_trip ''B'' ''A'' Other]) 960 600)))
        ((startup (january_only
           [mk_trip ''A'' ''B'' Annual, mk_trip ''A'' ''B'' Annual, mk_trip ''A'' ''B'' Casual,
            mk_trip ''B'' ''A'' Other]) 960 600)\<lparr>minRoutePercent := 25\<rparr>))
   \<and> length (links
        (buildCaches (allData (startup (january_only
           [mk_trip ''A'' ''B'' Annual, mk_trip ''A'' ''B'' Annual, mk_trip ''A'' ''B'' Casual,
            mk_trip ''B'' ''A'' Other]) 960 600)))
        ((startup (january_only
           [mk_trip ''A'' ''B'' Annual, mk_trip ''A'' ''B'' Annual, mk_trip ''A'' ''B'' Casual,
            mk_trip ''B'' ''A'' Other]) 960 600)\<lparr>minRoutePercent := 75\<rparr>)) = 1
   \<and> length (links
        (buildCaches (allData (startup (january_only
           [mk_trip ''A'' ''B'' Annual, mk_trip ''A'' ''B'' Annual, mk_trip ''A'' ''B'' Casual,
            mk_trip ''B'' ''A'' Other]) 960 600)))
        ((startup (january_only
           [mk_trip ''A'' ''B'' Annual, mk_trip ''A'' ''B'' Annual, mk_trip ''A'' ''B'' Casual,
            mk_trip ''B'' ''A'' Other]) 960 600)\<lparr>minRoutePercent := 25\<rparr>)) = 2"
proof -
  let ?init = "startup (january_only
           [mk_trip ''A'' ''B'' Annual, mk_trip ''A'' ''B'' Annual, mk_trip ''A'' ''B'' Casual,
            mk_trip ''B'' ''A'' Other]) 960 600"
  let ?c = "buildCaches (allData ?init)"
  have le: "(25::real) \<le> 75" by simp
  have hi: "length (links ?c (?init\<lparr>minRoutePercent := 75\<rparr>)) = 1" by code_simp
  have lo: "length (links ?c (?init\<lparr>minRoutePercent := 25\<rparr>)) = 2" by code_simp
  from percentile_monotone [OF le]
  have mono: "length (links ?c (?init\<lparr>minRoutePercent := 75\<rparr>))
                \<le> length (links ?c (?init\<lparr>minRoutePercent := 25\<rparr>))" .
  show ?thesis by (intro conjI le mono hi lo)
qed




section \<open>Claims about the detail view\<close>



























section \<open>Claims about the projection\<close>





section \<open>Claims about the geocode resolver\<close>

text \<open>
  C9. getStationLatLng returns a pair of finite coordinates for every station name, found
  in a feed or not, and its result depends on nothing but the name, the two geocode
  stores, the polygon and its centroid: two states that agree on these give the same
  coordinate for the same name.
\<close>

theorem geocode_total_deterministic:
  "isFinite (lat (getStationLatLng unicodeFold st name))
   \<and> isFinite (lng (getStationLatLng unicodeFold st name))
   \<and> (stationPos st' = stationPos st \<and> stationPosNorm st' = stationPosNorm st
        \<and> geojson st' = geojson st \<and> torontoCentroid st' = torontoCentroid st
      \<longrightarrow> getStationLatLng unicodeFold st' name = getStationLatLng unicodeFold st name)"
proof (intro conjI impI)
  have syn: "isFinite (lat (syntheticLatLng st name)) \<and> isFinite (lng (syntheticLatLng st name))"
    by (simp add: syntheticLatLng_def Let_def split: option.splits)
  have fin: "finite_entry r = Some ll \<Longrightarrow> isFinite (lat ll) \<and> isFinite (lng ll)" for r ll
    by (auto simp: finite_entry_def split: option.splits if_splits)
  show "isFinite (lat (getStationLatLng unicodeFold st name))"
    using syn fin by (auto simp: getStationLatLng_def split: option.splits)
  show "isFinite (lng (getStationLatLng unicodeFold st name))"
    using syn fin by (auto simp: getStationLatLng_def split: option.splits)
  assume "stationPos st' = stationPos st \<and> stationPosNorm st' = stationPosNorm st
        \<and> geojson st' = geojson st \<and> torontoCentroid st' = torontoCentroid st"
  then have same: "stationPos st' = stationPos st" "stationPosNorm st' = stationPosNorm st"
    "geojson st' = geojson st" "torontoCentroid st' = torontoCentroid st"
    by simp_all
  have syn_eq: "syntheticLatLng st' name = syntheticLatLng st name"
    unfolding syntheticLatLng_def same by (rule refl)
  show "getStationLatLng unicodeFold st' name = getStationLatLng unicodeFold st name"
    unfolding getStationLatLng_def same syn_eq by (rule refl)
qed

theorem geocode_total_deterministic_witness:
  "isFinite (lat (getStationLatLng (\<lambda>s. s) initState ''Union Station''))
   \<and> isFinite (lng (getStationLatLng (\<lambda>s. s) initState ''Union Station''))
   \<and> getStationLatLng (\<lambda>s. s) (initState\<lparr>isDetail := True, yaw := 1\<rparr>) ''Union Station''
       = getStationLatLng (\<lambda>s. s) initState ''Union Station''"
  using geocode_total_deterministic
          [of "\<lambda>s. s" initState "''Union Station''" "initState\<lparr>isDetail := True, yaw := 1\<rparr>"]
  by simp

section \<open>Claims about the synthetic demonstration data\<close>

text \<open>
  What injectSyntheticIfNeeded does when it is called: nothing when some month holds a
  trip, and otherwise it appends the month '09' with the synthetic trips, which all start
  at the one hub, end at one of the five destinations, and give the five routes the
  counts 40, 30, 20, 15, 10.
\<close>

lemma totalTrips_sum:
  "foldl (\<lambda>sum m. sum + length (trips m)) k ds = k + sum_list (map (\<lambda>m. length (trips m)) ds)"
  by (induction ds arbitrary: k) simp_all

lemma inject_when_no_trips:
  "sum_list (map (\<lambda>m. length (trips m)) (allData st)) = 0 \<Longrightarrow>
   allData (injectSyntheticIfNeeded st) = allData st @ [\<lparr>mm = M09, trips = syntheticTrips\<rparr>]"
  by (simp add: injectSyntheticIfNeeded_def totalTrips_sum Let_def)

lemma inject_when_trips:
  "0 < sum_list (map (\<lambda>m. length (trips m)) (allData st)) \<Longrightarrow> injectSyntheticIfNeeded st = st"
  by (simp add: injectSyntheticIfNeeded_def totalTrips_sum Let_def)

lemma synthetic_trips_shape:
  "length ends = 5 \<and> distinct (demoStart # map fst ends)
   \<and> list_all (\<lambda>t. start_station_name t = demoStart
                     \<and> end_station_name t \<in> set (map fst ends)) syntheticTrips"
  by code_simp

lemma route_count_applyTrip_any:
  "route_count (applyTrip m c t) mem mk s e =
     route_count c mem mk s e
       + (if fans_into mem mk m t \<and> start_station_name t = s \<and> end_station_name t = e
          then 1 else 0)"
  by (simp add: route_count_def endRoutes_applyTrip route_count_addRoute)

lemma route_count_applyTrips:
  "route_count (foldl (applyTrip m) c ts) mem mk s e =
     route_count c mem mk s e
       + length (filter (\<lambda>t. fans_into mem mk m t \<and> start_station_name t = s
                              \<and> end_station_name t = e) ts)"
  by (induction ts arbitrary: c) (simp_all add: route_count_applyTrip_any)

lemma synthetic_counts:
  "map (\<lambda>e. length (filter (\<lambda>t. fans_into MemAll MonthAll M09 t
                                  \<and> start_station_name t = demoStart
                                  \<and> end_station_name t = fst e) syntheticTrips)) ends
     = [40, 30, 20, 15, 10]"
  by code_simp

lemma synthetic_route_counts:
  "map (\<lambda>e. route_count (buildCaches [\<lparr>mm = M09, trips = syntheticTrips\<rparr>]) MemAll MonthAll
               demoStart (fst e)) ends
     = [40, 30, 20, 15, 10]"
proof -
  have "route_count (buildCaches [\<lparr>mm = M09, trips = syntheticTrips\<rparr>]) MemAll MonthAll demoStart e
          = length (filter (\<lambda>t. fans_into MemAll MonthAll M09 t
                                  \<and> start_station_name t = demoStart
                                  \<and> end_station_name t = e) syntheticTrips)" for e
    by (simp add: buildCaches_def applyMonth_def route_count_applyTrips)
       (simp add: route_count_def emptyCache_def)
  then show ?thesis using synthetic_counts by simp
qed

lemma buildCaches_no_trips:
  "\<forall>mo \<in> set ds. trips mo = [] \<Longrightarrow> buildCaches ds = emptyCache"
proof -
  have "\<forall>mo \<in> set ds. trips mo = [] \<Longrightarrow> foldl applyMonth c ds = c" for c
    by (induction ds arbitrary: c) (simp_all add: applyMonth_def)
  then show "\<forall>mo \<in> set ds. trips mo = [] \<Longrightarrow> buildCaches ds = emptyCache"
    by (simp add: buildCaches_def)
qed

text \<open>
  C2. The start-up chain does not call injectSyntheticIfNeeded. When none of the twelve
  files yields a cleaned trip, the chain builds the cache from the twelve empty months as
  they are: the data set holds no synthetic month, the cache is empty, no node and no
  edge is selected, and no position is seeded for the synthetic hub.
\<close>

theorem startup_without_trips:
  "allData (startup (\<lambda>m. []) clientWidth clientHeight)
     = map (\<lambda>m. \<lparr>mm = m, trips = []\<rparr>) months12
   \<and> caches (startup (\<lambda>m. []) clientWidth clientHeight) = Some emptyCache
   \<and> nodes emptyCache (startup (\<lambda>m. []) clientWidth clientHeight) = []
   \<and> linksView emptyCache (startup (\<lambda>m. []) clientWidth clientHeight) = []
   \<and> stationPos (startup (\<lambda>m. []) clientWidth clientHeight) ''Demo Station (Synthetic)'' = None"
proof -
  have c: "buildCaches (map (\<lambda>m. \<lparr>mm = m, trips = []\<rparr>) months12) = emptyCache"
    by (rule buildCaches_no_trips) simp
  have n: "nodes emptyCache st = []" for st
    by (simp add: nodes_def allNodes_def aggMap_def emptyCache_def sort_desc_def)
  have l: "linksView emptyCache st = []" for st
    by (simp add: linksView_def links_def linksRaw_def n split: option.splits)
  show ?thesis
    by (simp add: startup_def loadAllCSVs_def initCanvas_def updateVis_def Let_def c n l
          initState_def)
qed

end
